theory Spec2Isabelle
  imports Complex_Main
begin

section \<open>Conventions of the embedding\<close>

text \<open>
  The library is TypeScript. Its \<^verbatim>\<open>number\<close> is modelled by \<^typ>\<open>real\<close> (exact
  arithmetic: rounding, NaN and Infinity are outside the model), except for the attempt
  counter, which the engine only ever increments from 0 and which is an \<^typ>\<open>int\<close>.
  A \<^verbatim>\<open>throw\<close> is the \<open>Inl\<close> branch of a sum, a returned delay the \<open>Inr\<close> branch.
  What a policy does besides returning (drawing from \<^verbatim>\<open>Math.random\<close>, writing its
  \<^verbatim>\<open>WeakMap\<close>, whatever a user-written policy does) is a change of an explicit world
  \<open>'w\<close> that every call takes and gives back.
\<close>

section \<open>Thrown values\<close>

text \<open>
  \<^verbatim>\<open>error: unknown\<close>: the values that the code throws or stores. \<open>RetryyyError es c\<close> is an
  instance of the class \<^verbatim>\<open>RetryyyError extends AggregateError\<close> with \<^verbatim>\<open>errors = es\<close>
  and \<^verbatim>\<open>cause = c\<close>.
\<close>

datatype thrown =
    Null
  | Undefined
  | Error string
  | TypeError string
  | RetryyyError "thrown list" thrown

text \<open>
  \<^verbatim>\<open>constructor(errors, options?) { super(errors, 'RetryyyError'); this.cause = options?.cause }\<close>
  The argument \<open>options\<close> is the cause that the options object carries, if there is one.
\<close>

definition new_RetryyyError :: "thrown list \<Rightarrow> thrown option \<Rightarrow> thrown" where
  "new_RetryyyError es options =
     RetryyyError es (case options of None \<Rightarrow> Undefined | Some c \<Rightarrow> c)"

fun aggregate_errors :: "thrown \<Rightarrow> thrown list" where
  "aggregate_errors (RetryyyError es c) = es"
| "aggregate_errors _ = []"

fun cause :: "thrown \<Rightarrow> thrown" where
  "cause (RetryyyError es c) = c"
| "cause _ = Undefined"

section \<open>core.ts: the retry state and the policy protocol\<close>

record RetryState =
  attempt :: int
  delay :: real
  elapsed :: real
  error :: thrown
  errors :: "thrown list"
  start :: real

text \<open>
  A policy receives the state object by reference. \<open>ref\<close> is the identity of that object
  (the key under which a \<^verbatim>\<open>WeakMap\<close> files it); the record is what its fields hold at
  the time of the call. A \<open>RetryPolicy\<close> of this embedding reads the state and does not write
  it, as \<^verbatim>\<open>Readonly<RetryState>\<close> asks and as every policy of the library does. The
  engine nevertheless hands over the live object, and \<^verbatim>\<open>Readonly\<close> is shallow: a policy
  that writes the state is a \<open>LivePolicy\<close>, further down.
\<close>

type_synonym ref = nat

type_synonym 'w outcome = "(thrown + real) \<times> 'w"

text \<open>
  \<^verbatim>\<open>type RetryPolicy = (state, next?) => number\<close>. Every policy of the library calls
  its \<open>next\<close> with the state alone, \<^verbatim>\<open>next(state)\<close>, so the parameter \<open>next\<close> is
  modelled by what that call does (a \<open>callee\<close>), and \<open>call1 p\<close> is the policy \<open>p\<close>
  called that way: its own \<open>next\<close> parameter is then undefined.
\<close>

type_synonym 'w callee = "ref \<Rightarrow> RetryState \<Rightarrow> 'w \<Rightarrow> 'w outcome"

type_synonym 'w RetryPolicy = "ref \<Rightarrow> RetryState \<Rightarrow> 'w callee option \<Rightarrow> 'w \<Rightarrow> 'w outcome"

definition call1 :: "'w RetryPolicy \<Rightarrow> 'w callee" where
  "call1 p = (\<lambda>r state. p r state None)"

subsection \<open>join\<close>

text \<open>
  \<^verbatim>\<open>join = (...policies) => policies.flat().reduceRight((next, policy) => (state) => policy(state, next))\<close>
  An argument of \<open>join\<close> is a policy or an array of policies (\<^verbatim>\<open>RetryPolicy | RetryPolicy[]\<close>);
  \<^verbatim>\<open>flat()\<close> removes one level of nesting, which is all that the type allows.
  \<^verbatim>\<open>reduceRight\<close> without an initial value throws a TypeError on an empty array, and on a
  non-empty one starts from the last element and visits the others from right to left.
\<close>

datatype 'w PolicyArg = Single "'w RetryPolicy" | Group "'w RetryPolicy list"

fun flat :: "'w PolicyArg list \<Rightarrow> 'w RetryPolicy list" where
  "flat [] = []"
| "flat (Single p # rest) = p # flat rest"
| "flat (Group ps # rest) = ps @ flat rest"

definition reduceRight :: "('a \<Rightarrow> 'a \<Rightarrow> 'a) \<Rightarrow> 'a list \<Rightarrow> thrown + 'a" where
  "reduceRight f xs =
     (case rev xs of
        [] \<Rightarrow> Inl (TypeError ''Reduce of empty array with no initial value'')
      | x # before \<Rightarrow> Inr (foldl f x before))"

definition compose :: "'w RetryPolicy \<Rightarrow> 'w RetryPolicy \<Rightarrow> 'w RetryPolicy" where
  "compose next policy = (\<lambda>r state ignored. policy r state (Some (call1 next)))"

definition join :: "'w PolicyArg list \<Rightarrow> thrown + 'w RetryPolicy" where
  "join policies = reduceRight compose (flat policies)"

subsection \<open>wait\<close>

text \<open>
  The abort signal as one call of \<open>wait\<close> finds it: whether it is already aborted, its
  reason, and whether its abort event arrives before a timer of the given length fires.
\<close>

record AbortSignal =
  aborted :: bool
  reason :: thrown
  abort_within :: "real \<Rightarrow> bool"

definition wait :: "real \<Rightarrow> AbortSignal option \<Rightarrow> thrown + unit" where
  "wait ms signal =
     (case signal of
        None \<Rightarrow> Inr ()
      | Some sg \<Rightarrow>
          if aborted sg then Inl (reason sg)
          else if abort_within sg ms then Inl (reason sg)
          else Inr ())"

subsection \<open>core and its loop\<close>

text \<open>
  What one call of \<open>exec\<close> amounts to: how the promise settles, how many times \<open>fn\<close> was
  invoked, the state as each pass through the \<^verbatim>\<open>catch\<close> block left it (oldest first),
  and the world afterwards.
\<close>

record ('a, 'w) run =
  settled :: "thrown + 'a"
  calls :: nat
  trace :: "RetryState list"
  world_after :: 'w

text \<open>
  The first four assignments of the \<^verbatim>\<open>catch\<close> block, \<open>t\<close> being the reading of
  \<^verbatim>\<open>Date.now()\<close>:
  \<^verbatim>\<open>state.attempt += 1; state.elapsed = Date.now() - state.start; state.error = error;
  state.errors.push(error)\<close>
\<close>

definition record_failure :: "RetryState \<Rightarrow> real \<Rightarrow> thrown \<Rightarrow> RetryState" where
  "record_failure state t e =
     state\<lparr>attempt := attempt state + 1,
           elapsed := t - start state,
           error := e,
           errors := errors state @ [e]\<rparr>"

text \<open>
  The \<^verbatim>\<open>for (;;)\<close> loop, with fuel: \<open>None\<close> is a loop that has not ended within the
  fuel. \<open>fn k\<close> is how the \<open>k\<close>-th invocation of the operation settles, \<open>now k\<close> is the
  reading of \<^verbatim>\<open>Date.now()\<close> after the \<open>k\<close>-th failure (\<open>now 0\<close> the one that
  initialises \<open>start\<close>), \<open>signal k\<close> is the signal as the \<open>k\<close>-th wait finds it, \<open>sid\<close> is
  the identity of the state object, and \<open>k\<close> counts the invocations made so far. The
  operation acts on the engine only through the way each invocation settles.
\<close>

fun loop ::
  "nat \<Rightarrow> (nat \<Rightarrow> thrown + 'a) \<Rightarrow> 'w RetryPolicy \<Rightarrow> (nat \<Rightarrow> AbortSignal) option \<Rightarrow>
   (nat \<Rightarrow> real) \<Rightarrow> ref \<Rightarrow> nat \<Rightarrow> RetryState \<Rightarrow> 'w \<Rightarrow> ('a, 'w) run option" where
  "loop 0 fn policy signal now sid k state w = None"
| "loop (Suc fuel) fn policy signal now sid k state w =
     (case fn (Suc k) of
        Inr v \<Rightarrow> Some \<lparr>settled = Inr v, calls = Suc k, trace = [], world_after = w\<rparr>
      | Inl e \<Rightarrow>
          (let state1 = record_failure state (now (Suc k)) e
           in case policy sid state1 None w of
                (Inl x, w') \<Rightarrow>
                  Some \<lparr>settled = Inl x, calls = Suc k, trace = [state1], world_after = w'\<rparr>
              | (Inr d, w') \<Rightarrow>
                  (let state2 = state1\<lparr>delay := d\<rparr>
                   in case wait d (map_option (\<lambda>sg. sg (Suc k)) signal) of
                        Inl r \<Rightarrow>
                          Some \<lparr>settled = Inl r, calls = Suc k, trace = [state2],
                                world_after = w'\<rparr>
                      | Inr u \<Rightarrow>
                          map_option (\<lambda>rn. rn\<lparr>trace := state2 # trace rn\<rparr>)
                            (loop fuel fn policy signal now sid (Suc k) state2 w'))))"

definition initial_state :: "real \<Rightarrow> RetryState" where
  "initial_state t =
     \<lparr>attempt = 0, delay = 0, elapsed = 0, error = Null, errors = [], start = t\<rparr>"

definition exec ::
  "('i \<Rightarrow> nat \<Rightarrow> thrown + 'a) \<Rightarrow> 'w RetryPolicy \<Rightarrow> (nat \<Rightarrow> AbortSignal) option \<Rightarrow> 'i \<Rightarrow>
   nat \<Rightarrow> (nat \<Rightarrow> real) \<Rightarrow> ref \<Rightarrow> 'w \<Rightarrow> ('a, 'w) run option" where
  "exec fn policy signal input fuel now sid w =
     loop fuel (fn input) policy signal now sid 0 (initial_state (now 0)) w"

text \<open>
  \<^verbatim>\<open>core(fn, policy)(...args)\<close>: called with an abort signal as its only argument it
  returns \<open>exec\<close> bound to that signal, and does not run it; called with the input it
  runs \<open>exec\<close> without a signal.
\<close>

datatype 'i Args = AbortArgs "nat \<Rightarrow> AbortSignal" | InputArgs 'i

datatype ('i, 'a, 'w) Wrapped =
    Exec "'i \<Rightarrow> nat \<Rightarrow> (nat \<Rightarrow> real) \<Rightarrow> ref \<Rightarrow> 'w \<Rightarrow> ('a, 'w) run option"
  | Promise "nat \<Rightarrow> (nat \<Rightarrow> real) \<Rightarrow> ref \<Rightarrow> 'w \<Rightarrow> ('a, 'w) run option"

definition core ::
  "('i \<Rightarrow> nat \<Rightarrow> thrown + 'a) \<Rightarrow> 'w RetryPolicy \<Rightarrow> 'i Args \<Rightarrow> ('i, 'a, 'w) Wrapped" where
  "core fn policy args =
     (case args of
        AbortArgs signal \<Rightarrow> Exec (exec fn policy (Some signal))
      | InputArgs input \<Rightarrow> Promise (exec fn policy None input))"

subsection \<open>The loop on the live state object\<close>

text \<open>
  \<^verbatim>\<open>state.delay = policy(state)\<close> passes the state object itself. A \<open>LivePolicy\<close> is a
  policy as the engine calls it, with the state alone, that may write that object: it gives
  what it returns or raises, the state as it leaves it, and the world. \<open>by_value p\<close> is a
  \<open>RetryPolicy\<close> seen that way: it leaves the state as it found it.
\<close>

type_synonym 'w LivePolicy = "ref \<Rightarrow> RetryState \<Rightarrow> 'w \<Rightarrow> (thrown + real) \<times> RetryState \<times> 'w"

definition by_value :: "'w RetryPolicy \<Rightarrow> 'w LivePolicy" where
  "by_value p = (\<lambda>r state w. case p r state None w of (res, w') \<Rightarrow> (res, state, w'))"

text \<open>
  The same \<^verbatim>\<open>for (;;)\<close> loop, observed through the states alone: the state as each pass
  through the \<^verbatim>\<open>catch\<close> block leaves it, oldest first, for the passes made within the
  fuel, whether the loop has ended by then or not. The assignment to \<open>delay\<close> is made on the
  state as the policy left it.
\<close>

fun live_loop ::
  "nat \<Rightarrow> (nat \<Rightarrow> thrown + 'a) \<Rightarrow> 'w LivePolicy \<Rightarrow> (nat \<Rightarrow> AbortSignal) option \<Rightarrow>
   (nat \<Rightarrow> real) \<Rightarrow> ref \<Rightarrow> nat \<Rightarrow> RetryState \<Rightarrow> 'w \<Rightarrow> RetryState list" where
  "live_loop 0 fn policy signal now sid k state w = []"
| "live_loop (Suc fuel) fn policy signal now sid k state w =
     (case fn (Suc k) of
        Inr v \<Rightarrow> []
      | Inl e \<Rightarrow>
          (case policy sid (record_failure state (now (Suc k)) e) w of
             (Inl x, state1, w') \<Rightarrow> [state1]
           | (Inr d, state1, w') \<Rightarrow>
               (let state2 = state1\<lparr>delay := d\<rparr>
                in case wait d (map_option (\<lambda>sg. sg (Suc k)) signal) of
                     Inl r \<Rightarrow> [state2]
                   | Inr u \<Rightarrow>
                       state2 # live_loop fuel fn policy signal now sid (Suc k) state2 w')))"

definition live_exec ::
  "('i \<Rightarrow> nat \<Rightarrow> thrown + 'a) \<Rightarrow> 'w LivePolicy \<Rightarrow> (nat \<Rightarrow> AbortSignal) option \<Rightarrow> 'i \<Rightarrow>
   nat \<Rightarrow> (nat \<Rightarrow> real) \<Rightarrow> ref \<Rightarrow> 'w \<Rightarrow> RetryState list" where
  "live_exec fn policy signal input fuel now sid w =
     live_loop fuel (fn input) policy signal now sid 0 (initial_state (now 0)) w"

section \<open>The policies\<close>

text \<open>\<^verbatim>\<open>options?.field ?? dflt\<close>\<close>

definition opt_or :: "'o option \<Rightarrow> ('o \<Rightarrow> 'v option) \<Rightarrow> 'v \<Rightarrow> 'v" where
  "opt_or options field dflt =
     (case options of
        None \<Rightarrow> dflt
      | Some opts \<Rightarrow> (case field opts of None \<Rightarrow> dflt | Some v \<Rightarrow> v))"

text \<open>
  \<^verbatim>\<open>void next?.(state)\<close>: call \<open>next\<close> if there is one and drop what it returns; what it
  throws is not caught.
\<close>

definition void_next :: "'w callee option \<Rightarrow> ref \<Rightarrow> RetryState \<Rightarrow> 'w \<Rightarrow> (thrown + unit) \<times> 'w" where
  "void_next next r state w =
     (case next of
        None \<Rightarrow> (Inr (), w)
      | Some n \<Rightarrow> (case n r state w of (Inl e, w') \<Rightarrow> (Inl e, w') | (Inr d, w') \<Rightarrow> (Inr (), w')))"

subsection \<open>Backoff.ts\<close>

record BackoffOptions =
  backoff_delay :: "real option"
  backoff_exp :: "real option"
  backoff_max :: "real option"

definition Backoff :: "BackoffOptions option \<Rightarrow> thrown + 'w RetryPolicy" where
  "Backoff options =
     (let delay0 = opt_or options backoff_delay 150;
          exp0 = opt_or options backoff_exp 2;
          max0 = opt_or options backoff_max 30000
      in if delay0 \<le> 0 then Inl (TypeError ''delay must be a positive number'')
         else if exp0 \<le> 0 then Inl (TypeError ''exp must be a positive number'')
         else Inr (\<lambda>r state next w.
                case void_next next r state w of
                  (Inl e, w') \<Rightarrow> (Inl e, w')
                | (Inr u, w') \<Rightarrow>
                    (Inr (min max0 (delay0 * power_int exp0 (attempt state - 1))), w')))"

subsection \<open>Breaker.ts\<close>

record BreakerOptions =
  breaker_max :: "real option"

definition Breaker :: "BreakerOptions option \<Rightarrow> 'w RetryPolicy" where
  "Breaker options =
     (let max0 = opt_or options breaker_max 10
      in (\<lambda>r state next w.
            if real_of_int (attempt state) \<ge> max0 then (Inl (error state), w)
            else case next of
                   Some n \<Rightarrow> n r state w
                 | None \<Rightarrow> (Inl (error state), w)))"

subsection \<open>Timeout.ts\<close>

record TimeoutOptions =
  timeout_after :: "real option"

definition Timeout :: "TimeoutOptions option \<Rightarrow> 'w RetryPolicy" where
  "Timeout options =
     (let after = opt_or options timeout_after 30000
      in (\<lambda>r state next w.
            if elapsed state > after - delay state \<or> next = None then (Inl (error state), w)
            else the next r state w))"

subsection \<open>FastTrack.ts\<close>

text \<open>\<^verbatim>\<open>const delay = next?.(state) ?? 0; return state.attempt === 1 ? 0 : delay\<close>\<close>

definition FastTrack :: "'w RetryPolicy" where
  "FastTrack =
     (\<lambda>r state next w.
        case (case next of None \<Rightarrow> (Inr 0, w) | Some n \<Rightarrow> n r state w) of
          (Inl e, w') \<Rightarrow> (Inl e, w')
        | (Inr d, w') \<Rightarrow> (Inr (if attempt state = 1 then 0 else d), w'))"

subsection \<open>BrandError.ts\<close>

text \<open>
  \<^verbatim>\<open>try { if (next) return next(state); throw state.error }
  catch (err) { throw new RetryyyError(state.errors.concat(err), { cause: err }) }\<close>
\<close>

definition BrandError :: "'w RetryPolicy" where
  "BrandError =
     (\<lambda>r state next w.
        case (case next of Some n \<Rightarrow> n r state w | None \<Rightarrow> (Inl (error state), w)) of
          (Inr d, w') \<Rightarrow> (Inr d, w')
        | (Inl err, w') \<Rightarrow> (Inl (new_RetryyyError (errors state @ [err]) (Some err)), w'))"

subsection \<open>Jitter.ts\<close>

text \<open>
  The world of the jitter policies: \<open>draws i\<close> is what the \<open>i\<close>-th call of
  \<^verbatim>\<open>Math.random()\<close> returns and \<open>drawn\<close> counts the calls made; \<open>weakmaps a\<close> is the
  content of the \<^verbatim>\<open>WeakMap\<close> allocated at address \<open>a\<close>, keyed by object identity.
\<close>

record world =
  draws :: "nat \<Rightarrow> real"
  drawn :: nat
  weakmaps :: "nat \<Rightarrow> ref \<rightharpoonup> real"

definition Math_random :: "world \<Rightarrow> real \<times> world" where
  "Math_random w = (draws w (drawn w), w\<lparr>drawn := Suc (drawn w)\<rparr>)"

record JitterOptions =
  jitter_offset :: "real option"
  jitter_range :: "real option"

definition Jitter :: "JitterOptions \<Rightarrow> world RetryPolicy" where
  "Jitter options =
     (let range0 = (case jitter_range options of None \<Rightarrow> - 0.5 | Some v \<Rightarrow> v);
          offset0 = (case jitter_offset options of None \<Rightarrow> 0.25 | Some v \<Rightarrow> v)
      in (\<lambda>r state next w.
            case next of
              None \<Rightarrow> (Inl (error state), w)
            | Some n \<Rightarrow>
                (case n r state w of
                   (Inl e, w') \<Rightarrow> (Inl e, w')
                 | (Inr d, w') \<Rightarrow>
                     (let (u, w'') = Math_random w';
                          jitter = d * range0 * u;
                          shift = d * offset0
                      in (Inr (d + jitter + shift), w'')))))"

definition FullJitter :: "world RetryPolicy" where
  "FullJitter = Jitter \<lparr>jitter_offset = Some (- 1), jitter_range = Some 1\<rparr>"

definition EqualJitter :: "world RetryPolicy" where
  "EqualJitter = Jitter \<lparr>jitter_offset = Some (- 0.5), jitter_range = Some 0.5\<rparr>"

record DecorrelatedJitterOptions =
  decorrelated_initial :: "real option"
  decorrelated_max :: "real option"

definition DecorrelatedJitter :: "DecorrelatedJitterOptions option \<Rightarrow> world RetryPolicy" where
  "DecorrelatedJitter options =
     (let initial = opt_or options decorrelated_initial 150;
          max0 = opt_or options decorrelated_max 30000
      in (\<lambda>r state next w.
            case void_next next r state w of
              (Inl e, w') \<Rightarrow> (Inl e, w')
            | (Inr u0, w') \<Rightarrow>
                (let past = (if attempt state = 1 then initial else delay state);
                     top = min max0 (past * 3);
                     (u, w'') = Math_random w'
                 in (Inr (u * (top - initial) + initial), w''))))"

record PollyJitterOptions =
  polly_initial :: "real option"
  polly_max :: "real option"

definition POLLY_P_FACTOR :: real where
  "POLLY_P_FACTOR = 4"

definition POLLY_RP_SCALING_FACTOR :: real where
  "POLLY_RP_SCALING_FACTOR = 1 / 1.4"

text \<open>
  \<^verbatim>\<open>const factors = new WeakMap<RetryState, number>()\<close> is allocated when the policy is
  built; \<open>factors\<close> is the address of that map.
\<close>

definition PollyJitter :: "nat \<Rightarrow> PollyJitterOptions option \<Rightarrow> world RetryPolicy" where
  "PollyJitter factors options =
     (let initial = opt_or options polly_initial 150;
          max0 = opt_or options polly_max 30000
      in (\<lambda>r state middleware w.
            case void_next middleware r state w of
              (Inl e, w') \<Rightarrow> (Inl e, w')
            | (Inr u0, w') \<Rightarrow>
                (let (u, w'') = Math_random w';
                     t = real_of_int (attempt state - 1) + u;
                     prev = (case weakmaps w'' factors r of None \<Rightarrow> 0 | Some v \<Rightarrow> v);
                     next = 2 powr t * tanh (sqrt (POLLY_P_FACTOR * t));
                     shift = next - prev;
                     w3 = w''\<lparr>weakmaps := (weakmaps w'')(factors := (weakmaps w'' factors)(r \<mapsto> next))\<rparr>
                 in (Inr (min max0 (shift * POLLY_RP_SCALING_FACTOR * initial)), w3))))"

section \<open>Properties of the policies\<close>

subsection \<open>Auxiliary facts\<close>

lemma void_next_None: "void_next None r state w = (Inr (), w)"
  by (simp add: void_next_def)

lemma void_next_returns:
  "nx r state w = (Inr v, w') \<Longrightarrow> void_next (Some nx) r state w = (Inr (), w')"
  by (simp add: void_next_def)

lemma void_next_throws:
  "nx r state w = (Inl e, w') \<Longrightarrow> void_next (Some nx) r state w = (Inl e, w')"
  by (simp add: void_next_def)

lemma power_int_pred: "1 \<le> n \<Longrightarrow> power_int (x::real) (n - 1) = x ^ nat (n - 1)"
  by (simp add: power_int_def)

subsection \<open>Timeout\<close>

text \<open>
  C6. For every state, \<open>Timeout({after})\<close> raises \<open>state.error\<close>, without calling \<open>next\<close>,
  when \<open>next\<close> is absent or \<open>state.elapsed > after - state.delay\<close>; otherwise its result is
  that of \<open>next(state)\<close>, unchanged (what \<open>next\<close> returns, or what it raises). Without
  \<open>after\<close> the policy is \<open>Timeout({after: 30000})\<close>.
\<close>

theorem Timeout_spec:
  "Timeout (Some \<lparr>timeout_after = Some after\<rparr>) r state next w =
     (case next of
        None \<Rightarrow> (Inl (error state), w)
      | Some n \<Rightarrow>
          if elapsed state > after - delay state then (Inl (error state), w)
          else n r state w)
   \<and> (Timeout None :: 'w RetryPolicy) = Timeout (Some \<lparr>timeout_after = Some 30000\<rparr>)
   \<and> (Timeout (Some \<lparr>timeout_after = None\<rparr>) :: 'w RetryPolicy) =
       Timeout (Some \<lparr>timeout_after = Some 30000\<rparr>)"
  by (simp add: Timeout_def opt_or_def split: option.split)

subsection \<open>Backoff\<close>

text \<open>
  C5. With \<open>d\<close>, \<open>e\<close> and \<open>mx\<close> the delay, the exponent and the maximum that the options
  give (150, 2 and 30000 where they give none): building the policy raises a TypeError
  when \<open>d \<le> 0\<close> or \<open>e \<le> 0\<close>, and no policy exists then; otherwise, on every state with
  \<open>attempt = n \<ge> 1\<close>, the policy returns \<open>min(mx, d * e^(n-1))\<close>, both without a \<open>next\<close>
  and with a \<open>next\<close> that returns any value \<open>v\<close> (the world is then the one \<open>next\<close> left:
  it was called, and \<open>v\<close> is dropped). With delay 150 and exponent 2 the attempts 1, 2, 3
  give 150, 300, 600.
\<close>

theorem Backoff_spec:
  fixes options :: "BackoffOptions option" and d e mx :: real
  assumes "d = opt_or options backoff_delay 150"
    and "e = opt_or options backoff_exp 2"
    and "mx = opt_or options backoff_max 30000"
  shows "(d \<le> 0 \<or> e \<le> 0 \<longrightarrow> (\<exists>msg. (Backoff options :: thrown + 'w RetryPolicy) = Inl (TypeError msg)))
    \<and> (0 < d \<and> 0 < e \<longrightarrow>
         (\<exists>p :: 'w RetryPolicy. Backoff options = Inr p
            \<and> (\<forall>r state w. 1 \<le> attempt state \<longrightarrow>
                  p r state None w = (Inr (min mx (d * e ^ nat (attempt state - 1))), w))
            \<and> (\<forall>r state nx w v w'. 1 \<le> attempt state \<and> nx r state w = (Inr v, w') \<longrightarrow>
                  p r state (Some nx) w = (Inr (min mx (d * e ^ nat (attempt state - 1))), w'))))
    \<and> (\<exists>p :: 'w RetryPolicy.
          Backoff (Some \<lparr>backoff_delay = Some 150, backoff_exp = Some 2, backoff_max = None\<rparr>) = Inr p
            \<and> (\<forall>r state w. attempt state = 1 \<longrightarrow> p r state None w = (Inr 150, w))
            \<and> (\<forall>r state w. attempt state = 2 \<longrightarrow> p r state None w = (Inr 300, w))
            \<and> (\<forall>r state w. attempt state = 3 \<longrightarrow> p r state None w = (Inr 600, w)))"
proof (intro conjI)
  show "d \<le> 0 \<or> e \<le> 0 \<longrightarrow> (\<exists>msg. (Backoff options :: thrown + 'w RetryPolicy) = Inl (TypeError msg))"
    using assms by (auto simp add: Backoff_def Let_def)
  show "0 < d \<and> 0 < e \<longrightarrow>
         (\<exists>p :: 'w RetryPolicy. Backoff options = Inr p
            \<and> (\<forall>r state w. 1 \<le> attempt state \<longrightarrow>
                  p r state None w = (Inr (min mx (d * e ^ nat (attempt state - 1))), w))
            \<and> (\<forall>r state nx w v w'. 1 \<le> attempt state \<and> nx r state w = (Inr v, w') \<longrightarrow>
                  p r state (Some nx) w = (Inr (min mx (d * e ^ nat (attempt state - 1))), w')))"
    using assms
    by (auto simp add: Backoff_def Let_def void_next_None void_next_returns power_int_pred)
  show "\<exists>p :: 'w RetryPolicy.
          Backoff (Some \<lparr>backoff_delay = Some 150, backoff_exp = Some 2, backoff_max = None\<rparr>) = Inr p
            \<and> (\<forall>r state w. attempt state = 1 \<longrightarrow> p r state None w = (Inr 150, w))
            \<and> (\<forall>r state w. attempt state = 2 \<longrightarrow> p r state None w = (Inr 300, w))
            \<and> (\<forall>r state w. attempt state = 3 \<longrightarrow> p r state None w = (Inr 600, w))"
    by (simp add: Backoff_def Let_def opt_or_def void_next_None power_int_def)
qed

theorem Backoff_spec_witness:
  "(\<exists>msg. (Backoff (Some \<lparr>backoff_delay = Some 0, backoff_exp = Some 2, backoff_max = None\<rparr>)
              :: thrown + unit RetryPolicy) = Inl (TypeError msg))
   \<and> (\<exists>p :: unit RetryPolicy. Backoff None = Inr p
        \<and> p 0 \<lparr>attempt = 3, delay = 300, elapsed = 450, error = Error ''Failure'',
                 errors = [Error ''Failure'', Error ''Failure'', Error ''Failure''], start = 0\<rparr>
             None () = (Inr 600, ())
        \<and> p 0 \<lparr>attempt = 9, delay = 300, elapsed = 450, error = Error ''Failure'',
                 errors = [], start = 0\<rparr>
             (Some (\<lambda>r state w. (Inr 7, w))) () = (Inr 30000, ()))"
proof -
  have a: "\<exists>msg. (Backoff (Some \<lparr>backoff_delay = Some 0, backoff_exp = Some 2, backoff_max = None\<rparr>)
              :: thrown + unit RetryPolicy) = Inl (TypeError msg)"
    using Backoff_spec [where ?'w = unit, OF refl refl refl,
        of "Some \<lparr>backoff_delay = Some 0, backoff_exp = Some 2, backoff_max = None\<rparr>"]
    by (simp add: opt_or_def)
  have "\<exists>p :: unit RetryPolicy. Backoff None = Inr p
            \<and> (\<forall>r state w. 1 \<le> attempt state \<longrightarrow>
                  p r state None w = (Inr (min 30000 (150 * 2 ^ nat (attempt state - 1))), w))
            \<and> (\<forall>r state nx w v w'. 1 \<le> attempt state \<and> nx r state w = (Inr v, w') \<longrightarrow>
                  p r state (Some nx) w = (Inr (min 30000 (150 * 2 ^ nat (attempt state - 1))), w'))"
    using Backoff_spec [where ?'w = unit, OF refl refl refl, of None]
    by (simp add: opt_or_def)
  then obtain p :: "unit RetryPolicy" where p: "Backoff None = Inr p"
    and p1: "\<And>r state w. 1 \<le> attempt state \<Longrightarrow>
                  p r state None w = (Inr (min 30000 (150 * 2 ^ nat (attempt state - 1))), w)"
    and p2: "\<And>r state nx w v w'. 1 \<le> attempt state \<Longrightarrow> nx r state w = (Inr v, w') \<Longrightarrow>
                  p r state (Some nx) w = (Inr (min 30000 (150 * 2 ^ nat (attempt state - 1))), w')"
    by blast
  have b: "p 0 \<lparr>attempt = 3, delay = 300, elapsed = 450, error = Error ''Failure'',
                 errors = [Error ''Failure'', Error ''Failure'', Error ''Failure''], start = 0\<rparr>
             None () = (Inr 600, ())"
    by (simp add: p1)
  have c: "p 0 \<lparr>attempt = 9, delay = 300, elapsed = 450, error = Error ''Failure'',
                 errors = [], start = 0\<rparr>
             (Some (\<lambda>r state w. (Inr 7, w))) () = (Inr 30000, ())"
    by (subst p2 [where v = 7 and w' = "()"]) simp_all
  from a p b c show ?thesis by blast
qed

subsection \<open>The jitter family\<close>

text \<open>
  C7 as stated fails: without a \<open>next\<close>, \<open>DecorrelatedJitter\<close> and \<open>PollyJitter\<close> do not
  raise \<open>state.error\<close>. \<open>DecorrelatedJitter()\<close> on a state with \<open>attempt = 1\<close> and a draw of
  0.5 returns 0.5 * (450 - 150) + 150 = 300.
\<close>

theorem Jitter_family_counterexample:
  "DecorrelatedJitter None 0
     \<lparr>attempt = 1, delay = 0, elapsed = 10, error = Error ''Failure'',
      errors = [Error ''Failure''], start = 0\<rparr>
     None \<lparr>draws = (\<lambda>i. 1 / 2), drawn = 0, weakmaps = (\<lambda>a. Map.empty)\<rparr>
   = (Inr 300, \<lparr>draws = (\<lambda>i. 1 / 2), drawn = 1, weakmaps = (\<lambda>a. Map.empty)\<rparr>)
   \<and> fst (DecorrelatedJitter None 0
     \<lparr>attempt = 1, delay = 0, elapsed = 10, error = Error ''Failure'',
      errors = [Error ''Failure''], start = 0\<rparr>
     None \<lparr>draws = (\<lambda>i. 1 / 2), drawn = 0, weakmaps = (\<lambda>a. Map.empty)\<rparr>)
     \<noteq> Inl (Error ''Failure'')
   \<and> fst (PollyJitter 0 None 0
     \<lparr>attempt = 1, delay = 0, elapsed = 10, error = Error ''Failure'',
      errors = [Error ''Failure''], start = 0\<rparr>
     None \<lparr>draws = (\<lambda>i. 1 / 2), drawn = 0, weakmaps = (\<lambda>a. Map.empty)\<rparr>)
     \<noteq> Inl (Error ''Failure'')"
  by (simp add: DecorrelatedJitter_def PollyJitter_def opt_or_def void_next_None Math_random_def
      Let_def)

text \<open>
  C7, amended. Invoked on any state without a \<open>next\<close>, \<open>Jitter\<close>, \<open>FullJitter\<close> and
  \<open>EqualJitter\<close> raise \<open>state.error\<close>; \<open>DecorrelatedJitter\<close> and \<open>PollyJitter\<close> call
  \<open>next\<close> only if there is one (\<^verbatim>\<open>void next?.(state)\<close>) and without it return the delay they
  compute themselves: for \<open>DecorrelatedJitter\<close> that is \<open>random * (top - initial) + initial\<close>
  with \<open>top = min(max, past * 3)\<close>.
\<close>

theorem Jitter_family_without_next:
  "Jitter options r state None w = (Inl (error state), w)
   \<and> FullJitter r state None w = (Inl (error state), w)
   \<and> EqualJitter r state None w = (Inl (error state), w)
   \<and> DecorrelatedJitter doptions r state None w =
       (Inr (draws w (drawn w)
              * (min (opt_or doptions decorrelated_max 30000)
                     ((if attempt state = 1 then opt_or doptions decorrelated_initial 150
                       else delay state) * 3)
                 - opt_or doptions decorrelated_initial 150)
              + opt_or doptions decorrelated_initial 150),
        w\<lparr>drawn := Suc (drawn w)\<rparr>)
   \<and> (\<exists>d w'. PollyJitter factors poptions r state None w = (Inr d, w'))"
  by (simp add: Jitter_def FullJitter_def EqualJitter_def DecorrelatedJitter_def PollyJitter_def
      void_next_None Math_random_def Let_def)

subsection \<open>FastTrack\<close>

text \<open>
  C9 as stated fails: without a \<open>next\<close>, \<open>FastTrack\<close> does not raise; it returns 0
  (\<^verbatim>\<open>next?.(state) ?? 0\<close>).
\<close>

theorem FastTrack_counterexample:
  "FastTrack 0
     \<lparr>attempt = 1, delay = 0, elapsed = 10, error = Error ''Failure'',
      errors = [Error ''Failure''], start = 0\<rparr>
     None () = (Inr 0, ())
   \<and> \<not> isl (fst (FastTrack 0
     \<lparr>attempt = 1, delay = 0, elapsed = 10, error = Error ''Failure'',
      errors = [Error ''Failure''], start = 0\<rparr>
     None ()))"
  by (simp add: FastTrack_def)

text \<open>
  C9, amended. Without a \<open>next\<close>, \<open>FastTrack\<close> returns 0 on every state. With a \<open>next\<close>
  that returns the delay \<open>d\<close>, it returns 0 when \<open>attempt = 1\<close> and \<open>d\<close> unchanged on every
  other state (so for every \<open>attempt \<ge> 2\<close>); what \<open>next\<close> raises is raised unchanged.
\<close>

theorem FastTrack_spec:
  "FastTrack r state None w = (Inr 0, w)
   \<and> (nx r state w = (Inr d, w') \<longrightarrow>
        FastTrack r state (Some nx) w = (Inr (if attempt state = 1 then 0 else d), w'))
   \<and> (nx r state w = (Inl e, w') \<longrightarrow> FastTrack r state (Some nx) w = (Inl e, w'))"
  by (simp add: FastTrack_def)

theorem FastTrack_spec_witness:
  "FastTrack 0
     \<lparr>attempt = 1, delay = 0, elapsed = 10, error = Error ''Failure'',
      errors = [Error ''Failure''], start = 0\<rparr>
     (Some (\<lambda>r state w. (Inr 150, w))) () = (Inr 0, ())
   \<and> FastTrack 0
     \<lparr>attempt = 2, delay = 0, elapsed = 10, error = Error ''Failure'',
      errors = [Error ''Failure'', Error ''Failure''], start = 0\<rparr>
     (Some (\<lambda>r state w. (Inr 150, w))) () = (Inr 150, ())
   \<and> FastTrack 0
     \<lparr>attempt = 2, delay = 0, elapsed = 10, error = Error ''Failure'',
      errors = [Error ''Failure'', Error ''Failure''], start = 0\<rparr>
     (Some (\<lambda>r state w. (Inl (error state), w))) () = (Inl (Error ''Failure''), ())"
  using
    FastTrack_spec [where nx = "\<lambda>r state w. (Inr 150, w)" and r = 0 and w = "()" and d = 150
      and w' = "()" and state = "\<lparr>attempt = 1, delay = 0, elapsed = 10, error = Error ''Failure'',
        errors = [Error ''Failure''], start = 0\<rparr>"]
    FastTrack_spec [where nx = "\<lambda>r state w. (Inr 150, w)" and r = 0 and w = "()" and d = 150
      and w' = "()" and state = "\<lparr>attempt = 2, delay = 0, elapsed = 10, error = Error ''Failure'',
        errors = [Error ''Failure'', Error ''Failure''], start = 0\<rparr>"]
    FastTrack_spec [where nx = "\<lambda>r state w. (Inl (error state), w)" and r = 0 and w = "()"
      and e = "Error ''Failure''"
      and w' = "()" and state = "\<lparr>attempt = 2, delay = 0, elapsed = 10, error = Error ''Failure'',
        errors = [Error ''Failure'', Error ''Failure''], start = 0\<rparr>"]
  by simp

section \<open>Properties of join\<close>

lemma reduceRight_Nil:
  "reduceRight f [] = Inl (TypeError ''Reduce of empty array with no initial value'')"
  by (simp add: reduceRight_def)

lemma reduceRight_single: "reduceRight f [x] = Inr x"
  by (simp add: reduceRight_def)

lemma reduceRight_nonempty: "xs \<noteq> [] \<Longrightarrow> \<exists>q. reduceRight f xs = Inr q"
  by (cases "rev xs") (simp_all add: reduceRight_def)

lemma reduceRight_Cons:
  assumes "reduceRight f xs = Inr q" and "xs \<noteq> []"
  shows "reduceRight f (x # xs) = Inr (f q x)"
proof -
  from assms(2) obtain y before where r: "rev xs = y # before"
    by (cases "rev xs") simp_all
  with assms(1) have "q = foldl f y before"
    by (simp add: reduceRight_def)
  with r show ?thesis
    by (simp add: reduceRight_def)
qed

lemma flat_map_Single: "flat (map Single ps) = ps"
  by (induction ps) simp_all

lemma join_two_or_more:
  assumes "flat policies = a # b # rest"
  shows "\<exists>q. join (map Single (b # rest)) = Inr q \<and> join policies = Inr (compose q a)"
proof -
  obtain q where q: "reduceRight compose (b # rest) = Inr q"
    using reduceRight_nonempty [of "b # rest" compose] by auto
  have "reduceRight compose (a # b # rest) = Inr (compose q a)"
    using q by (rule reduceRight_Cons) simp
  with q assms show ?thesis
    unfolding join_def flat_map_Single by simp
qed

text \<open>
  C10. For every list of arguments that \<open>join\<close> accepts (its type demands at least two units
  after flattening), the composed policy gives, on every state and in every world, the same
  result and the same world afterwards whatever is passed as its \<open>next\<close>, also a \<open>next\<close>
  that would change the world or raise: it is \<^verbatim>\<open>(state) => policy(state, next)\<close>, which has
  no second parameter, so the \<open>next\<close> of the call is never invoked.
\<close>

theorem join_ignores_next:
  assumes "join policies = Inr p" and "2 \<le> length (flat policies)"
  shows "p r state next w = p r state None w"
proof -
  from assms(2) obtain a b rest where "flat policies = a # b # rest"
    by (cases "flat policies"; cases "tl (flat policies)") auto
  then obtain q where "join policies = Inr (compose q a)"
    using join_two_or_more by blast
  with assms(1) have "p = compose q a" by simp
  then show ?thesis by (simp add: compose_def)
qed

theorem join_ignores_next_witness:
  "\<exists>p :: unit RetryPolicy.
     join [Group [FastTrack], Single (Breaker None)] = Inr p
     \<and> 2 \<le> length (flat [Group [FastTrack], Single (Breaker None :: unit RetryPolicy)])
     \<and> p 0 \<lparr>attempt = 1, delay = 0, elapsed = 10, error = Error ''Failure'',
              errors = [Error ''Failure''], start = 0\<rparr>
          (Some (\<lambda>r state w. (Inr 150, w))) ()
        = p 0 \<lparr>attempt = 1, delay = 0, elapsed = 10, error = Error ''Failure'',
                errors = [Error ''Failure''], start = 0\<rparr> None ()"
proof -
  have l: "2 \<le> length (flat [Group [FastTrack], Single (Breaker None :: unit RetryPolicy)])"
    by simp
  obtain p :: "unit RetryPolicy" where
    p: "join [Group [FastTrack], Single (Breaker None)] = Inr p"
    by (simp add: join_def reduceRight_def)
  from join_ignores_next [OF p l] l p show ?thesis by blast
qed

text \<open>
  C4 as stated fails at one unit: \<open>join\<close> of a single policy raises nothing and returns that
  policy (\<^verbatim>\<open>reduceRight\<close> of a one-element array is the element).
\<close>

theorem join_counterexample:
  "join [Single (FastTrack :: unit RetryPolicy)] = Inr FastTrack
   \<and> \<not> isl (join [Single (FastTrack :: unit RetryPolicy)])"
  by (simp add: join_def reduceRight_def)

text \<open>
  C4, amended. \<open>join(A, B)\<close> invoked on a state is \<open>A(state, B)\<close>, where \<open>A\<close> calls \<open>B\<close> with
  the state alone; array arguments are flattened before composition, and the first of two or
  more units gets as its \<open>next\<close> the composition of the others. Given no unit, \<open>join\<close> raises
  the TypeError of \<^verbatim>\<open>reduceRight\<close> on an empty array; given exactly one unit it raises
  nothing and returns that unit. Only the type \<^verbatim>\<open>PolicyList\<close> excludes fewer than two units.
\<close>

theorem join_spec:
  fixes A B :: "'w RetryPolicy" and policies :: "'w PolicyArg list"
  shows "(\<exists>p. join [Single A, Single B] = Inr p
        \<and> (\<forall>r state next w. p r state next w = A r state (Some (call1 B)) w))
   \<and> (\<forall>r state w. call1 B r state w = B r state None w)
   \<and> join policies = join (map Single (flat policies))
   \<and> (flat policies = [] \<longrightarrow>
        join policies = Inl (TypeError ''Reduce of empty array with no initial value''))
   \<and> (\<forall>P. flat policies = [P] \<longrightarrow> join policies = Inr P)
   \<and> (\<forall>P Q rest. flat policies = P # Q # rest \<longrightarrow>
        (\<exists>p q. join policies = Inr p \<and> join (map Single (Q # rest)) = Inr q
           \<and> (\<forall>r state next w. p r state next w = P r state (Some (call1 q)) w)))"
proof (intro conjI allI impI)
  show "\<exists>p. join [Single A, Single B] = Inr p
        \<and> (\<forall>r state next w. p r state next w = A r state (Some (call1 B)) w)"
    by (simp add: join_def reduceRight_def compose_def)
  show "\<And>r state w. call1 B r state w = B r state None w"
    by (simp add: call1_def)
  show "join policies = join (map Single (flat policies))"
    by (simp add: join_def flat_map_Single)
  show "join policies = Inl (TypeError ''Reduce of empty array with no initial value'')"
    if "flat policies = []"
    using that by (simp add: join_def reduceRight_Nil)
  show "join policies = Inr P" if "flat policies = [P]" for P
    using that by (simp add: join_def reduceRight_single)
  show "\<exists>p q. join policies = Inr p \<and> join (map Single (Q # rest)) = Inr q
           \<and> (\<forall>r state next w. p r state next w = P r state (Some (call1 q)) w)"
    if "flat policies = P # Q # rest" for P Q rest
    using join_two_or_more [OF that] by (auto simp add: compose_def)
qed

theorem join_spec_witness:
  "join ([] :: unit PolicyArg list) = Inl (TypeError ''Reduce of empty array with no initial value'')
   \<and> join [Group [], Group [FastTrack :: unit RetryPolicy]] = Inr FastTrack
   \<and> (\<exists>p q. join [Group [BrandError], Group [FastTrack, Breaker None]] = Inr p
         \<and> join (map Single [FastTrack, Breaker None]) = Inr q
         \<and> p 0 \<lparr>attempt = 1, delay = 0, elapsed = 10, error = Error ''Failure'',
                  errors = [Error ''Failure''], start = 0\<rparr> None ()
            = BrandError 0 \<lparr>attempt = 1, delay = 0, elapsed = 10, error = Error ''Failure'',
                  errors = [Error ''Failure''], start = 0\<rparr> (Some (call1 q)) ())"
proof -
  have fa: "flat ([] :: unit PolicyArg list) = []"
    by simp
  have a: "join ([] :: unit PolicyArg list)
           = Inl (TypeError ''Reduce of empty array with no initial value'')"
    using fa join_spec [where policies = "[] :: unit PolicyArg list" and A = FastTrack
        and B = FastTrack]
    by blast
  have fb: "flat [Group [], Group [FastTrack :: unit RetryPolicy]] = [FastTrack]"
    by simp
  have b: "join [Group [], Group [FastTrack :: unit RetryPolicy]] = Inr FastTrack"
    using fb join_spec [where policies = "[Group [], Group [FastTrack :: unit RetryPolicy]]"
        and A = FastTrack and B = FastTrack]
    by blast
  have fc: "flat [Group [BrandError], Group [FastTrack, Breaker None :: unit RetryPolicy]]
            = BrandError # FastTrack # [Breaker None]"
    by simp
  have c: "\<exists>p q. join [Group [BrandError], Group [FastTrack, Breaker None]] = Inr p
         \<and> join (map Single (FastTrack # [Breaker None])) = Inr q
         \<and> (\<forall>r state next w. p r state next (w::unit) = BrandError r state (Some (call1 q)) w)"
    using fc join_spec [where policies = "[Group [BrandError], Group [FastTrack, Breaker None :: unit RetryPolicy]]"
        and A = FastTrack and B = FastTrack]
    by blast
  from a b c show ?thesis by auto
qed

section \<open>Properties of the engine\<close>

subsection \<open>One pass through the loop\<close>

lemma loop_resolves:
  "fn (Suc k) = Inr v \<Longrightarrow>
   loop (Suc fuel) fn policy signal now sid k state w =
     Some \<lparr>settled = Inr v, calls = Suc k, trace = [], world_after = w\<rparr>"
  by simp

lemma loop_gives_up:
  "fn (Suc k) = Inl e \<Longrightarrow>
   policy sid (record_failure state (now (Suc k)) e) None w = (Inl x, w') \<Longrightarrow>
   loop (Suc fuel) fn policy signal now sid k state w =
     Some \<lparr>settled = Inl x, calls = Suc k,
           trace = [record_failure state (now (Suc k)) e], world_after = w'\<rparr>"
  by simp

lemma loop_cancelled:
  "fn (Suc k) = Inl e \<Longrightarrow>
   policy sid (record_failure state (now (Suc k)) e) None w = (Inr d, w') \<Longrightarrow>
   wait d (map_option (\<lambda>sg. sg (Suc k)) signal) = Inl rsn \<Longrightarrow>
   loop (Suc fuel) fn policy signal now sid k state w =
     Some \<lparr>settled = Inl rsn, calls = Suc k,
           trace = [(record_failure state (now (Suc k)) e)\<lparr>delay := d\<rparr>], world_after = w'\<rparr>"
  by simp

lemma loop_retries:
  "fn (Suc k) = Inl e \<Longrightarrow>
   policy sid (record_failure state (now (Suc k)) e) None w = (Inr d, w') \<Longrightarrow>
   wait d (map_option (\<lambda>sg. sg (Suc k)) signal) = Inr u \<Longrightarrow>
   loop (Suc fuel) fn policy signal now sid k state w =
     map_option (\<lambda>rn. rn\<lparr>trace := (record_failure state (now (Suc k)) e)\<lparr>delay := d\<rparr> # trace rn\<rparr>)
       (loop fuel fn policy signal now sid (Suc k) ((record_failure state (now (Suc k)) e)\<lparr>delay := d\<rparr>) w')"
  by (simp add: Let_def)

declare loop.simps(2) [simp del]

subsection \<open>The engine under Breaker\<close>

lemma Breaker_alone: "Breaker options r state None w = (Inl (error state), w)"
  by (simp add: Breaker_def)

lemma Breaker_chained:
  "Breaker (Some \<lparr>breaker_max = Some mx\<rparr>) r state (Some n) w =
     (if mx \<le> real_of_int (attempt state) then (Inl (error state), w) else n r state w)"
  by (simp add: Breaker_def opt_or_def)

lemma loop_breaker_chain:
  assumes fails: "\<And>j. fn j = Inl (errs j)"
    and D: "\<And>r s w. \<exists>d w'. D r s None w = (Inr d, w')"
    and p: "\<And>r s nx w. p r s nx w =
              Breaker (Some \<lparr>breaker_max = Some (real N)\<rparr>) r s (Some (call1 D)) w"
    and quiet: "\<And>k ms. wait ms (map_option (\<lambda>sg. sg k) signal) = Inr ()"
  shows "attempt state = int k \<Longrightarrow> k < N \<Longrightarrow> N - k \<le> fuel \<Longrightarrow>
         \<exists>rn. loop fuel fn p signal now sid k state w = Some rn
              \<and> calls rn = N \<and> settled rn = Inl (errs N)"
proof (induction fuel arbitrary: k state w)
  case 0
  then show ?case by simp
next
  case (Suc fuel)
  let ?s1 = "record_failure state (now (Suc k)) (errs (Suc k))"
  have a1: "attempt ?s1 = int (Suc k)" and e1: "error ?s1 = errs (Suc k)"
    using Suc.prems(1) by (simp_all add: record_failure_def)
  have f: "fn (Suc k) = Inl (errs (Suc k))"
    by (rule fails)
  show ?case
  proof (cases "Suc k = N")
    case True
    have pr: "p sid ?s1 None w = (Inl (errs (Suc k)), w)"
      using a1 e1 True by (simp add: p Breaker_chained)
    show ?thesis
      using loop_gives_up [where fn = fn and policy = p and now = now and k = k, OF f pr] True
      by simp
  next
    case False
    with Suc.prems have lt: "Suc k < N" by simp
    obtain d w' where d: "D sid ?s1 None w = (Inr d, w')"
      using D by blast
    have pd: "p sid ?s1 None w = (Inr d, w')"
      using a1 lt d by (simp add: p Breaker_chained call1_def)
    have "attempt (?s1\<lparr>delay := d\<rparr>) = int (Suc k)"
      using a1 by simp
    moreover have "N - Suc k \<le> fuel"
      using Suc.prems by simp
    ultimately obtain rn where
      rn: "loop fuel fn p signal now sid (Suc k) (?s1\<lparr>delay := d\<rparr>) w' = Some rn"
      "calls rn = N" "settled rn = Inl (errs N)"
      using Suc.IH lt by blast
    have q: "wait d (map_option (\<lambda>sg. sg (Suc k)) signal) = Inr ()"
      by (rule quiet)
    show ?thesis
      using loop_retries [where fn = fn and policy = p and now = now and k = k, OF f pd q] rn
      by simp
  qed
qed


lemma exec_Breaker_alone:
  assumes "fn input (Suc 0) = Inl e"
  shows "exec fn (Breaker options) signal input (Suc fuel) now sid w =
           Some \<lparr>settled = Inl e, calls = Suc 0,
                 trace = [record_failure (initial_state (now 0)) (now (Suc 0)) e],
                 world_after = w\<rparr>"
proof -
  have "Breaker options sid (record_failure (initial_state (now 0)) (now (Suc 0)) e) None w
        = (Inl e, w)"
    by (simp add: Breaker_alone record_failure_def)
  then show ?thesis
    unfolding exec_def
    by (rule loop_gives_up [where fn = "fn input" and policy = "Breaker options" and now = now
        and k = 0, OF assms])
qed

text \<open>
  C1 as stated fails for \<open>N \<ge> 2\<close>: \<open>Breaker\<close> alone has no \<open>next\<close> to delegate to and raises
  at the first failure. With \<open>Breaker({max: 2})\<close> an operation that always fails is invoked
  once, not twice.
\<close>

theorem Breaker_counterexample:
  "exec (\<lambda>i j. Inl (Error ''Failure'') :: thrown + unit)
     (Breaker (Some \<lparr>breaker_max = Some 2\<rparr>)) None () (Suc (Suc (Suc 0))) real 0 ()
   = Some \<lparr>settled = Inl (Error ''Failure''), calls = 1,
           trace = [\<lparr>attempt = 1, delay = 0, elapsed = 1, error = Error ''Failure'',
                     errors = [Error ''Failure''], start = 0\<rparr>],
           world_after = ()\<rparr>"
  by (simp add: exec_Breaker_alone record_failure_def initial_state_def)

text \<open>
  C1, amended. Let the operation fail on every attempt, with \<open>errs j\<close> the error of its
  \<open>j\<close>-th invocation, and let \<open>N \<ge> 1\<close>. Driven by \<open>Breaker({max: N})\<close> alone, the engine
  invokes the operation exactly once and raises the first error (the \<open>N\<close>-th one only when
  \<open>N = 1\<close>). Driven by \<open>join(Breaker({max: N}), D)\<close>, where \<open>D\<close> returns a delay on every state,
  and with no cancellation during the waits, the engine ends (any fuel from \<open>N\<close> on is
  enough), has invoked the operation exactly \<open>N\<close> times and raises the \<open>N\<close>-th error.
\<close>

theorem Breaker_attempts:
  fixes fn :: "'i \<Rightarrow> nat \<Rightarrow> thrown + 'a" and D :: "'w RetryPolicy"
  assumes "1 \<le> N" and "\<forall>j. fn input j = Inl (errs j)"
  shows "(\<exists>rn. exec fn (Breaker (Some \<lparr>breaker_max = Some (real N)\<rparr>)) signal input (Suc fuel)
                 now sid w = Some rn
              \<and> calls rn = 1 \<and> settled rn = Inl (errs 1))
    \<and> ((\<forall>r s v. \<exists>d v'. D r s None v = (Inr d, v'))
         \<and> (\<forall>k ms. wait ms (map_option (\<lambda>sg. sg k) signal) = Inr ())
         \<and> N \<le> fuel' \<longrightarrow>
        (\<exists>p rn. join [Single (Breaker (Some \<lparr>breaker_max = Some (real N)\<rparr>)), Single D] = Inr p
              \<and> exec fn p signal input fuel' now sid w = Some rn
              \<and> calls rn = N \<and> settled rn = Inl (errs N)))"
proof (intro conjI impI)
  have "fn input (Suc 0) = Inl (errs 1)"
    using assms(2) by simp
  then show "\<exists>rn. exec fn (Breaker (Some \<lparr>breaker_max = Some (real N)\<rparr>)) signal input (Suc fuel)
                 now sid w = Some rn
              \<and> calls rn = 1 \<and> settled rn = Inl (errs 1)"
    by (simp add: exec_Breaker_alone)
next
  assume h: "(\<forall>r s v. \<exists>d v'. D r s None v = (Inr d, v'))
         \<and> (\<forall>k ms. wait ms (map_option (\<lambda>sg. sg k) signal) = Inr ())
         \<and> N \<le> fuel'"
  let ?p = "compose D (Breaker (Some \<lparr>breaker_max = Some (real N)\<rparr>))"
  have j: "join [Single (Breaker (Some \<lparr>breaker_max = Some (real N)\<rparr>)), Single D] = Inr ?p"
    by (simp add: join_def reduceRight_def)
  have "\<exists>rn. loop fuel' (fn input) ?p signal now sid 0 (initial_state (now 0)) w = Some rn
              \<and> calls rn = N \<and> settled rn = Inl (errs N)"
  proof (rule loop_breaker_chain [where D = D])
    show "fn input j = Inl (errs j)" for j
      using assms(2) by simp
    show "\<exists>d w'. D r s None w = (Inr d, w')" for r s w
      using h by blast
    show "?p r s nx w = Breaker (Some \<lparr>breaker_max = Some (real N)\<rparr>) r s (Some (call1 D)) w"
      for r s nx w
      by (simp add: compose_def)
    show "wait ms (map_option (\<lambda>sg. sg k) signal) = Inr ()" for k ms
      using h by blast
    show "attempt (initial_state (now 0)) = int 0"
      by (simp add: initial_state_def)
    show "0 < N"
      using assms(1) by simp
    show "N - 0 \<le> fuel'"
      using h by simp
  qed
  with j show "\<exists>p rn. join [Single (Breaker (Some \<lparr>breaker_max = Some (real N)\<rparr>)), Single D] = Inr p
              \<and> exec fn p signal input fuel' now sid w = Some rn
              \<and> calls rn = N \<and> settled rn = Inl (errs N)"
    unfolding exec_def by blast
qed

theorem Breaker_attempts_witness:
  "(\<exists>rn. exec (\<lambda>i j. Inl (if j = 3 then Error ''third'' else Error ''earlier'') :: thrown + unit)
            (Breaker (Some \<lparr>breaker_max = Some 3\<rparr>)) None () (Suc 0) real 0 () = Some rn
        \<and> calls rn = 1 \<and> settled rn = Inl (Error ''earlier''))
   \<and> (\<exists>p rn. join [Single (Breaker (Some \<lparr>breaker_max = Some 3\<rparr>)), Single FastTrack] = Inr p
        \<and> exec (\<lambda>i j. Inl (if j = 3 then Error ''third'' else Error ''earlier'') :: thrown + unit)
            p None () 3 real 0 () = Some rn
        \<and> calls rn = 3 \<and> settled rn = Inl (Error ''third''))"
proof -
  have n: "1 \<le> (3::nat)"
    by simp
  have f: "\<forall>j. (\<lambda>i j. Inl (if j = 3 then Error ''third'' else Error ''earlier'') :: thrown + unit) () j
             = Inl ((\<lambda>j. if j = (3::nat) then Error ''third'' else Error ''earlier'') j)"
    by simp
  have d: "\<forall>r s v. \<exists>d v'. (FastTrack :: unit RetryPolicy) r s None v = (Inr d, v')"
    by (simp add: FastTrack_def)
  have q: "\<forall>k ms. wait ms (map_option (\<lambda>sg. sg k) (None :: (nat \<Rightarrow> AbortSignal) option)) = Inr ()"
    by (simp add: wait_def)
  show ?thesis
    using Breaker_attempts [where N = 3 and input = "()" and D = FastTrack and signal = None
        and fuel' = 3 and fuel = 0 and now = real and sid = 0 and w = "()"
        and fn = "\<lambda>i j. Inl (if j = 3 then Error ''third'' else Error ''earlier'') :: thrown + unit"
        and errs = "\<lambda>j. if j = (3::nat) then Error ''third'' else Error ''earlier''", OF n f]
      d q
    by simp
qed

subsection \<open>A signal that is aborted from the start\<close>

lemma wait_aborted: "aborted sg \<Longrightarrow> wait ms (Some sg) = Inl (reason sg)"
  by (simp add: wait_def)

text \<open>
  C2 as stated fails: the loop invokes the operation before it ever looks at the signal,
  which only \<open>wait\<close> reads. With a signal aborted beforehand, an operation that fails is
  invoked once before the engine fails with the reason, and an operation that succeeds is
  invoked once and its value is returned.
\<close>

theorem aborted_signal_counterexample:
  "(case core (\<lambda>i j. Inl (Error ''Failure'') :: thrown + nat) FastTrack
           (AbortArgs (\<lambda>k. \<lparr>aborted = True, reason = Error ''Aborted'', abort_within = (\<lambda>ms. True)\<rparr>)) of
      Exec run \<Rightarrow> run () (Suc (Suc (Suc 0))) real 0 ()
    | Promise pr \<Rightarrow> None)
   = Some \<lparr>settled = Inl (Error ''Aborted''), calls = 1,
           trace = [\<lparr>attempt = 1, delay = 0, elapsed = 1, error = Error ''Failure'',
                     errors = [Error ''Failure''], start = 0\<rparr>],
           world_after = ()\<rparr>
   \<and> (case core (\<lambda>i j. Inr 42 :: thrown + nat) FastTrack
           (AbortArgs (\<lambda>k. \<lparr>aborted = True, reason = Error ''Aborted'', abort_within = (\<lambda>ms. True)\<rparr>)) of
      Exec run \<Rightarrow> run () (Suc (Suc (Suc 0))) real 0 ()
    | Promise pr \<Rightarrow> None)
   = Some \<lparr>settled = Inr 42, calls = 1, trace = [], world_after = ()\<rparr>"
  by (simp add: core_def exec_def loop.simps(2) FastTrack_def wait_def record_failure_def
      initial_state_def)

text \<open>
  C2, amended. For every operation, every policy and every signal that is aborted, with
  reason \<open>rsn\<close>, before the call: \<open>core(fn, policy)(signal)\<close> returns the bound \<open>exec\<close>, and
  calling it invokes the operation exactly once and ends. If that invocation succeeds its
  value is returned; if it fails and the policy raises, the policy's error is raised; if it
  fails and the policy returns a delay, the engine fails with \<open>rsn\<close>, with no second
  invocation.
\<close>

theorem aborted_signal_runs_once:
  assumes "\<forall>k. aborted (signal k) \<and> reason (signal k) = rsn"
  shows "\<exists>run rn. core fn policy (AbortArgs signal) = Exec run
           \<and> run input (Suc fuel) now sid w = Some rn
           \<and> calls rn = 1
           \<and> settled rn =
               (case fn input 1 of
                  Inr v \<Rightarrow> Inr v
                | Inl e \<Rightarrow>
                    (case fst (policy sid (record_failure (initial_state (now 0)) (now 1) e) None w) of
                       Inl x \<Rightarrow> Inl x
                     | Inr d \<Rightarrow> Inl rsn))"
proof -
  let ?run = "exec fn policy (Some signal)"
  have c: "core fn policy (AbortArgs signal) = Exec ?run"
    by (simp add: core_def)
  have "\<exists>rn. ?run input (Suc fuel) now sid w = Some rn \<and> calls rn = 1
           \<and> settled rn =
               (case fn input 1 of
                  Inr v \<Rightarrow> Inr v
                | Inl e \<Rightarrow>
                    (case fst (policy sid (record_failure (initial_state (now 0)) (now 1) e) None w) of
                       Inl x \<Rightarrow> Inl x
                     | Inr d \<Rightarrow> Inl rsn))"
  proof (cases "fn input (Suc 0)")
    case (Inr v)
    then show ?thesis
      unfolding exec_def by (simp add: loop_resolves)
  next
    case (Inl e)
    let ?s1 = "record_failure (initial_state (now 0)) (now (Suc 0)) e"
    obtain res w' where pol: "policy sid ?s1 None w = (res, w')"
      by (cases "policy sid ?s1 None w")
    show ?thesis
    proof (cases res)
      case (Inl x)
      with pol have "policy sid ?s1 None w = (Inl x, w')" by simp
      from loop_gives_up [where fn = "fn input" and policy = policy and now = now and k = 0,
          OF \<open>fn input (Suc 0) = Inl e\<close> this]
      show ?thesis
        unfolding exec_def using \<open>fn input (Suc 0) = Inl e\<close> pol Inl by simp
    next
      case (Inr d)
      with pol have pd: "policy sid ?s1 None w = (Inr d, w')" by simp
      have wt: "wait d (map_option (\<lambda>sg. sg (Suc 0)) (Some signal)) = Inl rsn"
        using assms by (simp add: wait_aborted)
      from loop_cancelled [where fn = "fn input" and policy = policy and now = now and k = 0,
          OF \<open>fn input (Suc 0) = Inl e\<close> pd wt]
      show ?thesis
        unfolding exec_def using \<open>fn input (Suc 0) = Inl e\<close> pol Inr by simp
    qed
  qed
  with c show ?thesis by blast
qed

theorem aborted_signal_runs_once_witness:
  "\<exists>run rn. core (\<lambda>i j. Inl (Error ''Failure'') :: thrown + nat) FastTrack
       (AbortArgs (\<lambda>k. \<lparr>aborted = True, reason = Error ''Aborted'', abort_within = (\<lambda>ms. True)\<rparr>))
       = Exec run
     \<and> run () (Suc 0) real 0 () = Some rn
     \<and> calls rn = 1
     \<and> settled rn = Inl (Error ''Aborted'')"
proof -
  have a: "\<forall>k. aborted ((\<lambda>k. \<lparr>aborted = True, reason = Error ''Aborted'', abort_within = (\<lambda>ms. True)\<rparr>) k)
             \<and> reason ((\<lambda>k. \<lparr>aborted = True, reason = Error ''Aborted'', abort_within = (\<lambda>ms. True)\<rparr>) k)
               = Error ''Aborted''"
    by simp
  show ?thesis
    using aborted_signal_runs_once [where
        signal = "\<lambda>k. \<lparr>aborted = True, reason = Error ''Aborted'', abort_within = (\<lambda>ms. True)\<rparr>"
        and rsn = "Error ''Aborted''" and policy = "FastTrack :: unit RetryPolicy"
        and fn = "\<lambda>i j. Inl (Error ''Failure'') :: thrown + nat"
        and input = "()" and fuel = 0 and now = real and sid = 0 and w = "()", OF a]
    by (simp add: FastTrack_def)
qed

subsection \<open>The states of one operation\<close>

lemma by_value_keeps: "fst (snd (by_value p r s v)) = s"
  by (simp add: by_value_def split: prod.split)

lemma live_loop_Suc_cases:
  assumes "\<forall>r s v. fst (snd (policy r s v)) = s"
  obtains (resolved) "live_loop (Suc fuel) fn policy signal now sid k state w = []"
  | (gave_up) e where
      "live_loop (Suc fuel) fn policy signal now sid k state w
       = [record_failure state (now (Suc k)) e]"
  | (cancelled) e d where
      "live_loop (Suc fuel) fn policy signal now sid k state w
       = [(record_failure state (now (Suc k)) e)\<lparr>delay := d\<rparr>]"
  | (retried) e d w' where
      "live_loop (Suc fuel) fn policy signal now sid k state w
       = (record_failure state (now (Suc k)) e)\<lparr>delay := d\<rparr>
         # live_loop fuel fn policy signal now sid (Suc k)
             ((record_failure state (now (Suc k)) e)\<lparr>delay := d\<rparr>) w'"
proof (cases "fn (Suc k)")
  case (Inr v)
  then have "live_loop (Suc fuel) fn policy signal now sid k state w = []"
    by simp
  then show ?thesis by (rule resolved)
next
  case (Inl e)
  let ?s1 = "record_failure state (now (Suc k)) e"
  obtain res s1 w' where pol: "policy sid ?s1 w = (res, s1, w')"
    by (cases "policy sid ?s1 w")
  have "fst (snd (policy sid ?s1 w)) = ?s1"
    using assms by blast
  with pol have s1: "s1 = ?s1" by simp
  show ?thesis
  proof (cases res)
    case (Inl x)
    with pol s1 \<open>fn (Suc k) = Inl e\<close>
    have "live_loop (Suc fuel) fn policy signal now sid k state w = [?s1]"
      by simp
    then show ?thesis by (rule gave_up)
  next
    case (Inr d)
    note res = this
    show ?thesis
    proof (cases "wait d (map_option (\<lambda>sg. sg (Suc k)) signal)")
      case (Inl rsn)
      with pol s1 res \<open>fn (Suc k) = Inl e\<close>
      have "live_loop (Suc fuel) fn policy signal now sid k state w = [?s1\<lparr>delay := d\<rparr>]"
        by simp
      then show ?thesis by (rule cancelled)
    next
      case (Inr u)
      with pol s1 res \<open>fn (Suc k) = Inl e\<close>
      have "live_loop (Suc fuel) fn policy signal now sid k state w
            = ?s1\<lparr>delay := d\<rparr>
              # live_loop fuel fn policy signal now sid (Suc k) (?s1\<lparr>delay := d\<rparr>) w'"
        by (simp add: Let_def)
      then show ?thesis by (rule retried)
    qed
  qed
qed

lemma sorted_wrt_Cons2:
  assumes "\<And>a b c. P a b \<Longrightarrow> P b c \<Longrightarrow> P a c" and "P x y" and "sorted_wrt P (y # ys)"
  shows "sorted_wrt P (x # y # ys)"
  using assms by auto

lemma live_loop_errors_length:
  assumes keeps: "\<forall>r s v. fst (snd (policy r s v)) = s"
  shows "int (length (errors state)) = attempt state \<Longrightarrow>
    \<forall>st \<in> set (live_loop fuel fn policy signal now sid k state w).
       int (length (errors st)) = attempt st"
proof (induction fuel arbitrary: k state w)
  case 0
  then show ?case by simp
next
  case (Suc fuel)
  from keeps show ?case
  proof (cases rule: live_loop_Suc_cases
      [where fuel = fuel and fn = fn and signal = signal and now = now and sid = sid
        and k = k and state = state and w = w])
    case resolved
    then show ?thesis by simp
  next
    case (gave_up e)
    with Suc.prems show ?thesis
      by (simp add: record_failure_def)
  next
    case (cancelled e d)
    with Suc.prems show ?thesis
      by (simp add: record_failure_def)
  next
    case (retried e d w')
    have "int (length (errors ((record_failure state (now (Suc k)) e)\<lparr>delay := d\<rparr>)))
          = attempt ((record_failure state (now (Suc k)) e)\<lparr>delay := d\<rparr>)"
      using Suc.prems by (simp add: record_failure_def)
    from Suc.IH [OF this, of "Suc k" w'] this retried show ?thesis
      by simp
  qed
qed

lemma live_loop_attempt_increases:
  assumes keeps: "\<forall>r s v. fst (snd (policy r s v)) = s"
  shows "sorted_wrt (\<lambda>a b. attempt a < attempt b)
           (state # live_loop fuel fn policy signal now sid k state w)"
proof (induction fuel arbitrary: k state w)
  case 0
  then show ?case by simp
next
  case (Suc fuel)
  from keeps show ?case
  proof (cases rule: live_loop_Suc_cases
      [where fuel = fuel and fn = fn and signal = signal and now = now and sid = sid
        and k = k and state = state and w = w])
    case resolved
    then show ?thesis by simp
  next
    case (gave_up e)
    then show ?thesis
      by (simp add: record_failure_def)
  next
    case (cancelled e d)
    then show ?thesis
      by (simp add: record_failure_def)
  next
    case (retried e d w')
    let ?s = "(record_failure state (now (Suc k)) e)\<lparr>delay := d\<rparr>"
    have "sorted_wrt (\<lambda>a b. attempt a < attempt b)
            (state # ?s # live_loop fuel fn policy signal now sid (Suc k) ?s w')"
    proof (rule sorted_wrt_Cons2)
      show "attempt state < attempt ?s"
        by (simp add: record_failure_def)
      show "sorted_wrt (\<lambda>a b. attempt a < attempt b)
              (?s # live_loop fuel fn policy signal now sid (Suc k) ?s w')"
        by (rule Suc.IH)
    qed simp
    with retried show ?thesis by simp
  qed
qed

lemma live_loop_elapsed_increases:
  assumes keeps: "\<forall>r s v. fst (snd (policy r s v)) = s"
    and mono: "\<forall>i j. i \<le> j \<longrightarrow> now i \<le> now j"
  shows "elapsed state = now k - start state \<Longrightarrow>
    sorted_wrt (\<lambda>a b. elapsed a \<le> elapsed b)
      (state # live_loop fuel fn policy signal now sid k state w)"
proof (induction fuel arbitrary: k state w)
  case 0
  then show ?case by simp
next
  case (Suc fuel)
  have step: "now k \<le> now (Suc k)"
    using mono by simp
  from keeps show ?case
  proof (cases rule: live_loop_Suc_cases
      [where fuel = fuel and fn = fn and signal = signal and now = now and sid = sid
        and k = k and state = state and w = w])
    case resolved
    then show ?thesis by simp
  next
    case (gave_up e)
    with step Suc.prems show ?thesis
      by (simp add: record_failure_def)
  next
    case (cancelled e d)
    with step Suc.prems show ?thesis
      by (simp add: record_failure_def)
  next
    case (retried e d w')
    let ?s = "(record_failure state (now (Suc k)) e)\<lparr>delay := d\<rparr>"
    have "sorted_wrt (\<lambda>a b. elapsed a \<le> elapsed b)
            (state # ?s # live_loop fuel fn policy signal now sid (Suc k) ?s w')"
    proof (rule sorted_wrt_Cons2)
      show "elapsed state \<le> elapsed ?s"
        using step Suc.prems by (simp add: record_failure_def)
      have "elapsed ?s = now (Suc k) - start ?s"
        by (simp add: record_failure_def)
      then show "sorted_wrt (\<lambda>a b. elapsed a \<le> elapsed b)
              (?s # live_loop fuel fn policy signal now sid (Suc k) ?s w')"
        by (rule Suc.IH)
    qed simp
    with retried show ?thesis by simp
  qed
qed

lemma by_value_apply:
  "p r s None w = (res, w') \<Longrightarrow> by_value p r s w = (res, s, w')"
  by (simp add: by_value_def)

lemma loop_trace_live:
  "loop fuel fn p signal now sid k state w = Some rn \<Longrightarrow>
   live_loop fuel fn (by_value p) signal now sid k state w = trace rn"
proof (induction fuel arbitrary: k state w rn)
  case 0
  then show ?case by simp
next
  case (Suc fuel)
  from Suc.prems show ?case
    by (auto simp add: loop.simps(2) by_value_apply Let_def Suc.IH
        split: sum.splits prod.splits)
qed

lemma exec_trace_live:
  "exec fn p signal input fuel now sid w = Some rn \<Longrightarrow>
   live_exec fn (by_value p) signal input fuel now sid w = trace rn"
  unfolding exec_def live_exec_def by (rule loop_trace_live)

lemma live_loop_extends:
  "\<exists>later. live_loop (fuel + extra) fn policy signal now sid k state w
           = live_loop fuel fn policy signal now sid k state w @ later"
proof (induction fuel arbitrary: k state w)
  case 0
  then show ?case by simp
next
  case (Suc fuel)
  show ?case
    using Suc.IH by (auto simp add: Let_def split: sum.splits prod.splits)
qed

text \<open>
  C3 as stated fails, in two ways. For \<open>delay\<close>: the engine stores whatever the policy
  returns, and under \<open>join(FullJitter(), Backoff())\<close>, with draws 0.9 and then 0.1, the
  delays of the first two updates are 135 and then 30. For \<open>errors.length\<close>: the policy is
  handed the live state object, and the policy \<^verbatim>\<open>(s) => { s.errors.pop(); return 0 }\<close>
  leaves \<open>attempt = 1\<close> and then \<open>attempt = 2\<close> with no error in the list.
\<close>

theorem RetryState_counterexample:
  "(case Backoff None of
      Inl e \<Rightarrow> None
    | Inr backoff \<Rightarrow>
        (case join [Single FullJitter, Single backoff] of
           Inl e \<Rightarrow> None
         | Inr policy \<Rightarrow>
             map_option (\<lambda>rn. map delay (trace rn))
               (exec (\<lambda>i j. if j < 3 then Inl (Error ''Failure'') else Inr ()) policy None ()
                  (Suc (Suc (Suc 0))) real 0
                  \<lparr>draws = (\<lambda>i. if i = 0 then 9 / 10 else 1 / 10), drawn = 0,
                    weakmaps = (\<lambda>a. Map.empty)\<rparr>)))
   = Some [135, 30]
   \<and> (30 :: real) < 135
   \<and> live_exec (\<lambda>i j. Inl (Error ''Failure'') :: thrown + unit)
        (\<lambda>r s v. (Inr 0, s\<lparr>errors := butlast (errors s)\<rparr>, v)) None ()
        (Suc (Suc 0)) real 0 ()
     = [\<lparr>attempt = 1, delay = 0, elapsed = 1, error = Error ''Failure'', errors = [],
         start = 0\<rparr>,
        \<lparr>attempt = 2, delay = 0, elapsed = 2, error = Error ''Failure'', errors = [],
         start = 0\<rparr>]"
  by (simp add: Backoff_def opt_or_def join_def reduceRight_def compose_def call1_def
      FullJitter_def Jitter_def void_next_def Math_random_def exec_def loop.simps(2)
      live_exec_def record_failure_def initial_state_def wait_def Let_def power_int_def)

text \<open>
  C3, amended. For every operation and signal, and every policy that leaves the state object
  as it found it, over the initial state followed by the states that the successive passes
  through the \<^verbatim>\<open>catch\<close> block leave, at any point of the operation's lifetime (any
  fuel: the loop need not have ended): \<open>errors.length = attempt\<close> in each of them,
  \<open>attempt\<close> strictly increases from each to every later one, and \<open>elapsed\<close> never
  decreases provided the successive readings of \<^verbatim>\<open>Date.now()\<close> never decrease. Nothing
  is claimed of \<open>delay\<close>. For a \<open>RetryPolicy\<close> of this embedding and a run of \<open>exec\<close> that has
  ended, these states are the trace of that run.
\<close>

theorem RetryState_invariants:
  fixes fn :: "'i \<Rightarrow> nat \<Rightarrow> thrown + 'a" and policy :: "'w LivePolicy"
  assumes "\<forall>r s v. fst (snd (policy r s v)) = s"
  shows "(\<forall>st \<in> set (initial_state (now 0) # live_exec fn policy signal input fuel now sid w).
            int (length (errors st)) = attempt st)
    \<and> sorted_wrt (\<lambda>a b. attempt a < attempt b)
         (initial_state (now 0) # live_exec fn policy signal input fuel now sid w)
    \<and> ((\<forall>i j. i \<le> j \<longrightarrow> now i \<le> now j) \<longrightarrow>
         sorted_wrt (\<lambda>a b. elapsed a \<le> elapsed b)
           (initial_state (now 0) # live_exec fn policy signal input fuel now sid w))
    \<and> (\<forall>p rn. policy = by_value p \<and> exec fn p signal input fuel now sid w = Some rn \<longrightarrow>
          trace rn = live_exec fn policy signal input fuel now sid w)"
proof (intro conjI impI allI)
  have i: "int (length (errors (initial_state (now 0)))) = attempt (initial_state (now 0))"
    by (simp add: initial_state_def)
  with live_loop_errors_length [OF assms i]
  show "\<forall>st \<in> set (initial_state (now 0) # live_exec fn policy signal input fuel now sid w).
            int (length (errors st)) = attempt st"
    unfolding live_exec_def by simp
  show "sorted_wrt (\<lambda>a b. attempt a < attempt b)
         (initial_state (now 0) # live_exec fn policy signal input fuel now sid w)"
    unfolding live_exec_def by (rule live_loop_attempt_increases [OF assms])
next
  assume mono: "\<forall>i j. i \<le> j \<longrightarrow> now i \<le> now j"
  have "elapsed (initial_state (now 0)) = now 0 - start (initial_state (now 0))"
    by (simp add: initial_state_def)
  with assms mono
  show "sorted_wrt (\<lambda>a b. elapsed a \<le> elapsed b)
           (initial_state (now 0) # live_exec fn policy signal input fuel now sid w)"
    unfolding live_exec_def by (rule live_loop_elapsed_increases)
next
  fix p rn
  assume "policy = by_value p \<and> exec fn p signal input fuel now sid w = Some rn"
  then show "trace rn = live_exec fn policy signal input fuel now sid w"
    by (simp add: exec_trace_live)
qed

theorem RetryState_invariants_witness:
  "length (live_exec (\<lambda>i j. if j < 3 then Inl (Error ''Failure'') else Inr ())
             (by_value FastTrack) None () (Suc (Suc (Suc 0))) real 0 ()) = 2
   \<and> list_all (\<lambda>st. int (length (errors st)) = attempt st)
        (initial_state (real 0)
         # live_exec (\<lambda>i j. if j < 3 then Inl (Error ''Failure'') else Inr ())
             (by_value FastTrack) None () (Suc (Suc (Suc 0))) real 0 ())
   \<and> sorted_wrt (\<lambda>a b. attempt a < attempt b)
        (initial_state (real 0)
         # live_exec (\<lambda>i j. if j < 3 then Inl (Error ''Failure'') else Inr ())
             (by_value FastTrack) None () (Suc (Suc (Suc 0))) real 0 ())
   \<and> sorted_wrt (\<lambda>a b. elapsed a \<le> elapsed b)
        (initial_state (real 0)
         # live_exec (\<lambda>i j. if j < 3 then Inl (Error ''Failure'') else Inr ())
             (by_value FastTrack) None () (Suc (Suc (Suc 0))) real 0 ())
   \<and> (\<exists>rn. exec (\<lambda>i j. if j < 3 then Inl (Error ''Failure'') else Inr ()) FastTrack None ()
               (Suc (Suc (Suc 0))) real 0 () = Some rn
         \<and> trace rn = live_exec (\<lambda>i j. if j < 3 then Inl (Error ''Failure'') else Inr ())
                         (by_value FastTrack) None () (Suc (Suc (Suc 0))) real 0 ())
   \<and> exec (\<lambda>i j. Inl (Error ''Failure'') :: thrown + unit) FastTrack None ()
       (Suc (Suc 0)) real 0 () = None
   \<and> length (live_exec (\<lambda>i j. Inl (Error ''Failure'') :: thrown + unit)
               (by_value FastTrack) None () (Suc (Suc 0)) real 0 ()) = 2
   \<and> sorted_wrt (\<lambda>a b. attempt a < attempt b)
        (initial_state (real 0)
         # live_exec (\<lambda>i j. Inl (Error ''Failure'') :: thrown + unit)
             (by_value FastTrack) None () (Suc (Suc 0)) real 0 ())"
proof -
  have keeps: "\<forall>r s v. fst (snd (by_value (FastTrack :: unit RetryPolicy) r s v)) = s"
    by (simp add: by_value_keeps)
  have len: "length (live_exec (\<lambda>i j. if j < 3 then Inl (Error ''Failure'') else Inr ())
             (by_value FastTrack) None () (Suc (Suc (Suc 0))) real 0 ()) = 2"
    by (simp add: live_exec_def by_value_def FastTrack_def wait_def Let_def)
  obtain rn where
    rn: "exec (\<lambda>i j. if j < 3 then Inl (Error ''Failure'') else Inr ()) FastTrack None ()
           (Suc (Suc (Suc 0))) real 0 () = Some rn"
    by (simp add: exec_def loop.simps(2) FastTrack_def wait_def Let_def)
  have mono: "\<forall>i j. i \<le> j \<longrightarrow> real i \<le> real j"
    by simp
  have open_run: "exec (\<lambda>i j. Inl (Error ''Failure'') :: thrown + unit) FastTrack None ()
       (Suc (Suc 0)) real 0 () = None"
    by (simp add: exec_def loop.simps(2) FastTrack_def wait_def Let_def)
  have open_len: "length (live_exec (\<lambda>i j. Inl (Error ''Failure'') :: thrown + unit)
               (by_value FastTrack) None () (Suc (Suc 0)) real 0 ()) = 2"
    by (simp add: live_exec_def by_value_def FastTrack_def wait_def Let_def)
  from RetryState_invariants [OF keeps, where now = real and signal = None and input = "()"
      and fuel = "Suc (Suc (Suc 0))" and sid = 0 and w = "()"
      and fn = "\<lambda>i j. if j < 3 then Inl (Error ''Failure'') else Inr ()"]
    RetryState_invariants [OF keeps, where now = real and signal = None and input = "()"
      and fuel = "Suc (Suc 0)" and sid = 0 and w = "()"
      and fn = "\<lambda>i j. Inl (Error ''Failure'') :: thrown + unit"]
    mono rn len open_run open_len
  show ?thesis
    by (auto simp add: list_all_iff)
qed

section \<open>BrandError\<close>

text \<open>
  C8 fails on the code. The engine has already pushed the latest failure onto
  \<open>state.errors\<close> when the policy runs, and \<open>BrandError\<close> appends the caught error once more:
  on the state of the repository's own test (two failures, no \<open>next\<close>) the aggregate holds
  three errors, the last one twice, where the test expects two; and an operation that fails
  twice under \<open>join(BrandError(), Breaker({max: 2}), FastTrack())\<close> ends with an aggregate
  of three errors after two invocations. The cause is the last error, as claimed.
\<close>

theorem BrandError_appends_caught_error:
  "BrandError 0
     \<lparr>attempt = 2, delay = 0, elapsed = 10, error = Error ''Last error'',
      errors = [Error ''Previous error'', Error ''Last error''], start = 0\<rparr>
     None ()
   = (Inl (RetryyyError [Error ''Previous error'', Error ''Last error'', Error ''Last error'']
             (Error ''Last error'')), ())
   \<and> (case join [Single BrandError, Single (Breaker (Some \<lparr>breaker_max = Some 2\<rparr>)),
                 Single FastTrack] of
        Inl e \<Rightarrow> None
      | Inr policy \<Rightarrow>
          map_option (\<lambda>rn. (settled rn, calls rn))
            (exec (\<lambda>i j. Inl (if j = 1 then Error ''first'' else Error ''second'') :: thrown + unit)
               policy None () (Suc (Suc (Suc 0))) real 0 ()))
     = Some (Inl (RetryyyError [Error ''first'', Error ''second'', Error ''second'']
                    (Error ''second'')), 2)"
  by (simp add: BrandError_def new_RetryyyError_def join_def reduceRight_def compose_def call1_def
      Breaker_def FastTrack_def opt_or_def exec_def loop.simps(2) record_failure_def initial_state_def
      wait_def Let_def)

end
